theory Spec2Isabelle
  imports Main
begin

section \<open>Result codes, certificates and the token store\<close>

text \<open>
  The development embeds \<^verbatim>\<open>toolkit/devtools/security/LocalCertService.cpp\<close>.
  An \<^verbatim>\<open>nsresult\<close> is one of the codes the file names, or a code that comes out of NSS
  (\<^verbatim>\<open>GetXPCOMFromNSSError(PR_GetError())\<close>, \<^verbatim>\<open>MapSECStatus\<close>) or out of another XPCOM
  component; \<open>NS_ERROR_NSS\<close> carries that foreign code. \<^verbatim>\<open>NS_FAILED\<close> holds of every
  code but \<open>NS_OK\<close>.
\<close>

datatype nsresult =
    NS_OK
  | NS_ERROR_FAILURE
  | NS_ERROR_UNEXPECTED
  | NS_ERROR_INVALID_ARG
  | NS_ERROR_INVALID_POINTER
  | NS_ERROR_NSS int

definition NS_FAILED :: "nsresult \<Rightarrow> bool" where
  "NS_FAILED rv = (rv \<noteq> NS_OK)"

text \<open>
  \<^verbatim>\<open>PRTime\<close> is a signed 64-bit count of microseconds. Signed overflow is undefined in
  C++, so the times are integers and the model covers the runs whose arithmetic
  (\<^verbatim>\<open>now - oneDay\<close>, \<^verbatim>\<open>now + 365 * oneDay\<close>) stays in range.
\<close>

type_synonym PRTime = int

definition PR_USEC_PER_SEC :: PRTime where
  "PR_USEC_PER_SEC = 1000000"

definition oneDay :: PRTime where
  "oneDay = PR_USEC_PER_SEC * 60 * 60 * 24"

definition commonNamePrefix :: string where
  "commonNamePrefix = ''CN=''"

text \<open>
  The fields of a stored certificate that the file reads: through \<^verbatim>\<open>CERTCertificate\<close>
  in \<^verbatim>\<open>RemoveExisting\<close> (\<^verbatim>\<open>isRoot\<close>, \<^verbatim>\<open>subjectName\<close>, \<^verbatim>\<open>issuerName\<close>) and through
  \<^verbatim>\<open>nsIX509Cert\<close> in \<^verbatim>\<open>Validate\<close> (\<^verbatim>\<open>GetIsSelfSigned\<close>, which reports \<^verbatim>\<open>isRoot\<close>, the two
  names and the validity). The nickname is the one the store files the certificate under.
\<close>

record certificate =
  nickname :: string
  isRoot :: bool
  subjectName :: string
  issuerName :: string
  notBefore :: PRTime
  notAfter :: PRTime
  serialNumber :: nat

text \<open>
  Modelled from the spec: the Certificate Store and the Cryptographic Provider (section 6),
  which are NSS; its sources are not among the files embedded here. The store is the list
  of certificates on the token; several may share a nickname (the loop of
  \<^verbatim>\<open>RemoveExisting\<close> is written for that), a lookup by nickname returns the first of them,
  a successful deletion removes the certificate it was given, a successful import adds the
  certificate. Every call that reaches the store or the key slot is appended to \<open>log\<close>.
\<close>

datatype nss_call =
    KeySlotRequested
  | LookupPK11 string
  | DeleteCertAndKey certificate
  | KeyPairRequested
  | ImportRequested certificate
  | LookupCertDB string
  | InitPinRequested
  | LoginPrompted

record world =
  certs :: "certificate list"
  log :: "nss_call list"

definition logged :: "nss_call \<Rightarrow> world \<Rightarrow> world" where
  "logged c w = w\<lparr>log := log w @ [c]\<rparr>"

definition FindByNickname :: "string \<Rightarrow> world \<Rightarrow> certificate option" where
  "FindByNickname n w = find (\<lambda>c. nickname c = n) (certs w)"

definition under :: "string \<Rightarrow> world \<Rightarrow> certificate list" where
  "under n w = filter (\<lambda>c. nickname c = n) (certs w)"

section \<open>LocalCertTask::RemoveExisting\<close>

text \<open>
  The argument \<open>del\<close> is the outcome of \<^verbatim>\<open>PK11_DeleteTokenCertAndKey\<close> on a certificate:
  \<open>None\<close> for \<^verbatim>\<open>SECSuccess\<close>, \<open>Some code\<close> for a failure with that NSS error, which leaves
  the store as it was.
\<close>

function RemoveExisting :: "(certificate \<Rightarrow> int option) \<Rightarrow> string \<Rightarrow> world \<Rightarrow> nsresult \<times> world" where
  "RemoveExisting del mNickname w =
     (let w1 = logged (LookupPK11 mNickname) w in
      case FindByNickname mNickname w of
        None \<Rightarrow> (NS_OK, w1)
      | Some cert \<Rightarrow>
          if \<not> isRoot cert then (NS_ERROR_UNEXPECTED, w1)
          else if commonNamePrefix @ mNickname \<noteq> subjectName cert then (NS_ERROR_UNEXPECTED, w1)
          else if commonNamePrefix @ mNickname \<noteq> issuerName cert then (NS_ERROR_UNEXPECTED, w1)
          else
            (let w2 = logged (DeleteCertAndKey cert) w1 in
             (case del cert of
                Some code \<Rightarrow> (NS_ERROR_NSS code, w2)
              | None \<Rightarrow> RemoveExisting del mNickname (w2\<lparr>certs := remove1 cert (certs w2)\<rparr>))))"
  by pat_completeness auto

lemma find_nickname_under:
  assumes "find (\<lambda>c. nickname c = n) xs = Some x"
  shows "length (filter (\<lambda>c. nickname c = n) (remove1 x xs)) < length (filter (\<lambda>c. nickname c = n) xs)"
proof -
  from assms have mem: "x \<in> set xs" and nick: "nickname x = n"
    by (auto simp: find_Some_iff)
  have eq: "filter (\<lambda>c. nickname c = n) (remove1 x xs) = remove1 x (filter (\<lambda>c. nickname c = n) xs)"
    by (rule filter_remove1)
  have inn: "x \<in> set (filter (\<lambda>c. nickname c = n) xs)"
    using mem nick by simp
  then have pos: "0 < length (filter (\<lambda>c. nickname c = n) xs)"
    by (rule length_pos_if_in_set)
  have "length (remove1 x (filter (\<lambda>c. nickname c = n) xs)) = length (filter (\<lambda>c. nickname c = n) xs) - 1"
    using inn by (simp only: length_remove1 if_True)
  with pos eq show ?thesis by simp
qed

termination RemoveExisting
  apply (relation "measure (\<lambda>(del, n, w). length (under n w))")
   apply simp
  apply (simp add: under_def logged_def FindByNickname_def find_nickname_under)
  done

declare RemoveExisting.simps [simp del]

section \<open>LocalCertGetTask: GetFromDB, Validate, Generate, CalculateResult\<close>

text \<open>
  \<^verbatim>\<open>GetFromDB\<close>: \<open>certDB\<close> tells whether \<^verbatim>\<open>do_GetService(NS_X509CERTDB_CONTRACTID)\<close> gave the
  service. A failed lookup leaves \<^verbatim>\<open>mCert\<close> as it was.
\<close>

definition GetFromDB :: "bool \<Rightarrow> string \<Rightarrow> certificate option \<Rightarrow> world
    \<Rightarrow> nsresult \<times> certificate option \<times> world" where
  "GetFromDB certDB mNickname mCert w =
     (if \<not> certDB then (NS_ERROR_FAILURE, mCert, w)
      else
        let w1 = logged (LookupCertDB mNickname) w in
        case FindByNickname mNickname w of
          None \<Rightarrow> (NS_ERROR_FAILURE, mCert, w1)
        | Some certFromDB \<Rightarrow> (NS_OK, Some certFromDB, w1))"

text \<open>
  \<^verbatim>\<open>Validate\<close> reads the clock itself (\<^verbatim>\<open>PR_Now()\<close>); \<open>GetIsSelfSigned_rv\<close> is the status of
  \<^verbatim>\<open>mCert->GetIsSelfSigned\<close>.
\<close>

record validate_env =
  GetIsSelfSigned_rv :: nsresult
  validate_now :: PRTime

definition Validate :: "validate_env \<Rightarrow> string \<Rightarrow> certificate \<Rightarrow> nsresult" where
  "Validate e mNickname mCert =
     (let rv = GetIsSelfSigned_rv e in
      if NS_FAILED rv then rv
      else if \<not> isRoot mCert then NS_ERROR_FAILURE
      else if subjectName mCert \<noteq> issuerName mCert then NS_ERROR_FAILURE
      else if subjectName mCert \<noteq> commonNamePrefix @ mNickname then NS_ERROR_FAILURE
      else
        let now = validate_now e in
        if notBefore mCert > now \<or> notAfter mCert < now - oneDay then NS_ERROR_FAILURE
        else NS_OK)"

text \<open>
  \<^verbatim>\<open>Generate\<close> calls NSS fourteen times in a row and returns at the first call that fails.
  \<open>nss_error\<close> gives each call's outcome: \<open>None\<close> when it succeeds, \<open>Some code\<close> when it
  fails with \<^verbatim>\<open>PR_GetError() = code\<close>. \<open>version_data\<close> and \<open>arena\<close> tell whether the two
  pointers tested before signing are set, \<open>gen_now\<close> is the clock reading of \<^verbatim>\<open>PR_Now()\<close>,
  \<open>random_serial\<close> the serial drawn by \<^verbatim>\<open>PK11_GenerateRandomOnSlot\<close>, \<open>delete_error\<close> the
  outcome of a deletion in the purge, and \<open>gen_certDB\<close> whether the closing \<^verbatim>\<open>GetFromDB\<close>
  gets its service.
\<close>

datatype nss_step =
    PK11_GetInternalKeySlot
  | CERT_AsciiToName
  | SECOID_FindOIDByTag
  | PK11_GenerateKeyPair
  | SECKEY_CreateSubjectPublicKeyInfo
  | CERT_CreateCertificateRequest
  | CERT_CreateValidity
  | PK11_GenerateRandomOnSlot
  | CERT_CreateCertificate
  | SECOID_SetAlgorithmID
  | SEC_ASN1EncodeItem
  | SEC_DerSignData
  | CERT_NewTempCertificate
  | PK11_ImportCert

record gen_env =
  nss_error :: "nss_step \<Rightarrow> int option"
  delete_error :: "certificate \<Rightarrow> int option"
  version_data :: bool
  arena :: bool
  gen_now :: PRTime
  random_serial :: nat
  gen_certDB :: bool

text \<open>The first failure among calls that follow each other with no effect in between.\<close>

fun first_error :: "(nss_step \<Rightarrow> int option) \<Rightarrow> nss_step list \<Rightarrow> nsresult" where
  "first_error f [] = NS_OK"
| "first_error f (s # ss) =
     (case f s of Some code \<Rightarrow> NS_ERROR_NSS code | None \<Rightarrow> first_error f ss)"

text \<open>
  The certificate that \<^verbatim>\<open>Generate\<close> builds, signs with its own key and imports under the
  nickname: subject and issuer are both \<^verbatim>\<open>"CN=" + mNickname\<close>, valid from one day before the
  clock reading to 365 days after it. (The nickname is taken to be one that
  \<^verbatim>\<open>CERT_AsciiToName\<close> reads back unchanged.)
\<close>

definition new_certificate :: "string \<Rightarrow> PRTime \<Rightarrow> nat \<Rightarrow> certificate" where
  "new_certificate mNickname now serial =
     \<lparr>nickname = mNickname, isRoot = True,
      subjectName = commonNamePrefix @ mNickname, issuerName = commonNamePrefix @ mNickname,
      notBefore = now - oneDay, notAfter = now + 365 * oneDay, serialNumber = serial\<rparr>"

definition Generate :: "gen_env \<Rightarrow> string \<Rightarrow> certificate option \<Rightarrow> world
    \<Rightarrow> nsresult \<times> certificate option \<times> world" where
  "Generate e mNickname mCert w =
     (let w1 = logged KeySlotRequested w;
          rv = first_error (nss_error e) [PK11_GetInternalKeySlot] in
      if NS_FAILED rv then (rv, mCert, w1)
      else
        let (rv, w2) = RemoveExisting (delete_error e) mNickname w1 in
        if NS_FAILED rv then (rv, mCert, w2)
        else
          let rv = first_error (nss_error e) [CERT_AsciiToName, SECOID_FindOIDByTag] in
          if NS_FAILED rv then (rv, mCert, w2)
          else
            let w3 = logged KeyPairRequested w2;
                rv = first_error (nss_error e) [PK11_GenerateKeyPair] in
            if NS_FAILED rv then (rv, mCert, w3)
            else
              let rv = first_error (nss_error e)
                         [SECKEY_CreateSubjectPublicKeyInfo, CERT_CreateCertificateRequest,
                          CERT_CreateValidity, PK11_GenerateRandomOnSlot, CERT_CreateCertificate] in
              if NS_FAILED rv then (rv, mCert, w3)
              else if \<not> version_data e then (NS_ERROR_INVALID_POINTER, mCert, w3)
              else if \<not> arena e then (NS_ERROR_INVALID_POINTER, mCert, w3)
              else
                let rv = first_error (nss_error e)
                           [SECOID_SetAlgorithmID, SEC_ASN1EncodeItem, SEC_DerSignData,
                            CERT_NewTempCertificate] in
                if NS_FAILED rv then (rv, mCert, w3)
                else
                  let cert = new_certificate mNickname (gen_now e) (random_serial e);
                      w4 = logged (ImportRequested cert) w3;
                      rv = first_error (nss_error e) [PK11_ImportCert] in
                  if NS_FAILED rv then (rv, mCert, w4)
                  else GetFromDB (gen_certDB e) mNickname mCert (w4\<lparr>certs := certs w4 @ [cert]\<rparr>))"

text \<open>
  \<^verbatim>\<open>LocalCertGetTask::CalculateResult\<close>. The task has one environment for each place where
  it leaves the file: the first \<^verbatim>\<open>GetFromDB\<close>, the \<^verbatim>\<open>Generate\<close> after a failed lookup,
  \<^verbatim>\<open>Validate\<close>, the \<^verbatim>\<open>Generate\<close> after a failed validation. \<^verbatim>\<open>Validate\<close> dereferences
  \<^verbatim>\<open>mCert\<close> unchecked, so a run that reached it with a null \<^verbatim>\<open>mCert\<close> would have no
  result: \<open>None\<close>.
\<close>

record get_env =
  certDB :: bool
  gen_absent :: gen_env
  val :: validate_env
  gen_invalid :: gen_env

definition CalculateResult :: "get_env \<Rightarrow> string \<Rightarrow> certificate option \<Rightarrow> world
    \<Rightarrow> (nsresult \<times> certificate option \<times> world) option" where
  "CalculateResult e mNickname mCert w =
     (let (rv, mCert1, w1) = GetFromDB (certDB e) mNickname mCert w;
          (rv, mCert2, w2) =
             (if NS_FAILED rv then Generate (gen_absent e) mNickname mCert1 w1
              else (rv, mCert1, w1)) in
      if NS_FAILED rv then Some (rv, mCert2, w2)
      else
        case mCert2 of
          None \<Rightarrow> None
        | Some cert \<Rightarrow>
            (let rv = Validate (val e) mNickname cert;
                 (rv, mCert3, w3) =
                    (if NS_FAILED rv then Generate (gen_invalid e) mNickname mCert2 w2
                     else (rv, mCert2, w2)) in
             if NS_FAILED rv then Some (rv, mCert3, w3)
             else Some (NS_OK, mCert3, w3)))"

text \<open>
  The two tasks with their callbacks. A callback is known by a number; \<^verbatim>\<open>CallCallback\<close>
  hands \<^verbatim>\<open>mCert\<close> and the status to \<^verbatim>\<open>HandleCert\<close>, or the status to \<^verbatim>\<open>HandleResult\<close>.
  A new \<^verbatim>\<open>LocalCertGetTask\<close> starts with \<^verbatim>\<open>mCert(nullptr)\<close>.
\<close>

datatype callback_event =
    HandleCert nat "certificate option" nsresult
  | HandleResult nat nsresult

datatype task =
    LocalCertGetTask string nat
  | LocalCertRemoveTask string nat

definition run_LocalCertGetTask :: "get_env \<Rightarrow> string \<Rightarrow> nat \<Rightarrow> world
    \<Rightarrow> (callback_event \<times> world) option" where
  "run_LocalCertGetTask e mNickname mCallback w =
     (case CalculateResult e mNickname None w of
        None \<Rightarrow> None
      | Some (rv, mCert, w') \<Rightarrow> Some (HandleCert mCallback mCert rv, w'))"

definition run_LocalCertRemoveTask :: "(certificate \<Rightarrow> int option) \<Rightarrow> string \<Rightarrow> nat \<Rightarrow> world
    \<Rightarrow> callback_event \<times> world" where
  "run_LocalCertRemoveTask del mNickname mCallback w =
     (let (rv, w') = RemoveExisting del mNickname w in (HandleResult mCallback rv, w'))"

section \<open>LocalCertService\<close>

text \<open>
  \<^verbatim>\<open>LoginToKeySlot\<close>. The environment answers the queries on the slot
  (\<^verbatim>\<open>PK11_NeedUserInit\<close>, \<^verbatim>\<open>PK11_NeedLogin\<close>, \<^verbatim>\<open>PK11_IsLoggedIn\<close>), says whether the slot, the
  token database service and the key token are there, and gives the outcome of
  \<^verbatim>\<open>PK11_InitPin\<close> and the status of \<^verbatim>\<open>keyToken->Login\<close>.
\<close>

record login_env =
  slot_error :: "int option"
  NeedUserInit :: bool
  InitPin_error :: "int option"
  NeedLogin :: bool
  IsLoggedIn :: bool
  tokenDB :: bool
  keyToken :: bool
  Login_rv :: nsresult

definition LoginToKeySlot :: "login_env \<Rightarrow> world \<Rightarrow> nsresult \<times> world" where
  "LoginToKeySlot e w =
     (let w1 = logged KeySlotRequested w in
      case slot_error e of
        Some code \<Rightarrow> (NS_ERROR_NSS code, w1)
      | None \<Rightarrow>
          (let (rv, w2) =
                 (if NeedUserInit e then
                    (case InitPin_error e of
                       Some code \<Rightarrow> (NS_ERROR_NSS code, logged InitPinRequested w1)
                     | None \<Rightarrow> (NS_OK, logged InitPinRequested w1))
                  else (NS_OK, w1)) in
           if NS_FAILED rv then (rv, w2)
           else if NeedLogin e \<and> \<not> IsLoggedIn e then
             (if \<not> tokenDB e then (NS_ERROR_FAILURE, w2)
              else if \<not> keyToken e then (NS_ERROR_FAILURE, w2)
              else (Login_rv e, logged LoginPrompted w2))
           else (NS_OK, w2)))"

text \<open>
  Modelled from the spec: the asynchronous task executor (section 6), which is
  \<^verbatim>\<open>CryptoTask::Dispatch\<close>, not in the file. \<open>Dispatch_rv\<close> is its status, and the task is
  scheduled when it did not fail.
\<close>

record service_env =
  login :: login_env
  Dispatch_rv :: nsresult

text \<open>
  The two entry points. \<open>aCallback\<close> is \<open>None\<close> for a null pointer. The result is the
  status returned to the caller, the callbacks invoked before returning, the tasks handed to
  \<^verbatim>\<open>Dispatch\<close>, and the world.
\<close>

record service_result =
  returned :: nsresult
  called_back :: "callback_event list"
  dispatched :: "task list"
  after :: world

definition GetOrCreateCert :: "service_env \<Rightarrow> string \<Rightarrow> nat option \<Rightarrow> world \<Rightarrow> service_result" where
  "GetOrCreateCert e aNickname aCallback w =
     (if aNickname = [] then
        \<lparr>returned = NS_ERROR_INVALID_ARG, called_back = [], dispatched = [], after = w\<rparr>
      else
        case aCallback of
          None \<Rightarrow> \<lparr>returned = NS_ERROR_INVALID_POINTER, called_back = [], dispatched = [], after = w\<rparr>
        | Some cb \<Rightarrow>
            (let (rv, w1) = LoginToKeySlot (login e) w in
             if NS_FAILED rv then
               \<lparr>returned = NS_OK, called_back = [HandleCert cb None rv], dispatched = [], after = w1\<rparr>
             else
               \<lparr>returned = Dispatch_rv e, called_back = [],
                dispatched = (if NS_FAILED (Dispatch_rv e) then [] else [LocalCertGetTask aNickname cb]),
                after = w1\<rparr>))"

definition RemoveCert :: "service_env \<Rightarrow> string \<Rightarrow> nat option \<Rightarrow> world \<Rightarrow> service_result" where
  "RemoveCert e aNickname aCallback w =
     (if aNickname = [] then
        \<lparr>returned = NS_ERROR_INVALID_ARG, called_back = [], dispatched = [], after = w\<rparr>
      else
        case aCallback of
          None \<Rightarrow> \<lparr>returned = NS_ERROR_INVALID_POINTER, called_back = [], dispatched = [], after = w\<rparr>
        | Some cb \<Rightarrow>
            (let (rv, w1) = LoginToKeySlot (login e) w in
             if NS_FAILED rv then
               \<lparr>returned = NS_OK, called_back = [HandleResult cb rv], dispatched = [], after = w1\<rparr>
             else
               \<lparr>returned = Dispatch_rv e, called_back = [],
                dispatched = (if NS_FAILED (Dispatch_rv e) then [] else [LocalCertRemoveTask aNickname cb]),
                after = w1\<rparr>))"

section \<open>Notions used to state the properties\<close>

text \<open>
  A certificate under nickname \<open>n\<close> is one of the service's own when it passes the three
  tests of \<^verbatim>\<open>RemoveExisting\<close>: self-signed, subject and issuer both \<^verbatim>\<open>"CN=" + n\<close>. A
  stored certificate is foreign when it is not one of the service's own for the nickname it
  is stored under.
\<close>

definition ours :: "string \<Rightarrow> certificate \<Rightarrow> bool" where
  "ours n c = (isRoot c \<and> subjectName c = commonNamePrefix @ n \<and> issuerName c = commonNamePrefix @ n)"

definition foreign :: "certificate \<Rightarrow> bool" where
  "foreign c = (\<not> ours (nickname c) c)"

text \<open>
  \<^verbatim>\<open>Generate\<close> asks for the key slot once, first thing, and nothing else in a task does:
  the number of \<open>KeySlotRequested\<close> entries a task adds to the log is the number of times it
  entered \<^verbatim>\<open>Generate\<close>.
\<close>

definition generate_calls :: "nss_call list \<Rightarrow> nat" where
  "generate_calls l = length (filter (\<lambda>c. c = KeySlotRequested) l)"

text \<open>
  Requests served one after the other on one nickname: each is a task run to its callback,
  with the environment it meets. \<open>None\<close> is a run with no result.
\<close>

datatype request =
    GetOrCreate get_env nat
  | Remove "certificate \<Rightarrow> int option" nat

fun serve :: "string \<Rightarrow> request \<Rightarrow> world \<Rightarrow> (callback_event \<times> world) option" where
  "serve n (GetOrCreate e cb) w = run_LocalCertGetTask e n cb w"
| "serve n (Remove del cb) w = Some (run_LocalCertRemoveTask del n cb w)"

fun serve_all :: "string \<Rightarrow> request list \<Rightarrow> world \<Rightarrow> (callback_event list \<times> world) option" where
  "serve_all n [] w = Some ([], w)"
| "serve_all n (r # rs) w =
     (case serve n r w of
        None \<Rightarrow> None
      | Some (ev, w1) \<Rightarrow>
          (case serve_all n rs w1 of
             None \<Rightarrow> None
           | Some (evs, w2) \<Rightarrow> Some (ev # evs, w2)))"

section \<open>Concrete inputs\<close>

text \<open>
  A clock reading 366 days after the epoch with a working \<^verbatim>\<open>GetIsSelfSigned\<close>, a key slot
  whose login prompt is declined, and an empty token.
\<close>

definition devtools_validate_env :: validate_env where
  "devtools_validate_env = \<lparr>GetIsSelfSigned_rv = NS_OK, validate_now = 366 * oneDay\<rparr>"

definition login_declined :: login_env where
  "login_declined =
     \<lparr>slot_error = None, NeedUserInit = False, InitPin_error = None, NeedLogin = True,
      IsLoggedIn = False, tokenDB = True, keyToken = True, Login_rv = NS_ERROR_FAILURE\<rparr>"

definition empty_world :: world where
  "empty_world = \<lparr>certs = [], log = []\<rparr>"

text \<open>
  An NSS in which every call succeeds, generating at clock reading \<open>t\<close> with serial \<open>s\<close>;
  a task run on day 366 with it; the same run when the key slot is gone at the second
  \<^verbatim>\<open>Generate\<close>; a run on day 1100; a run whose clock reads day 10 in \<^verbatim>\<open>Generate\<close> and
  day 8 in \<^verbatim>\<open>Validate\<close>; a run on day 366 in which \<^verbatim>\<open>PK11_DeleteTokenCertAndKey\<close> fails
  at the second \<^verbatim>\<open>Generate\<close>; and a certificate for \<^verbatim>\<open>CN=devtools\<close> issued by a CA,
  stored under the nickname \<^verbatim>\<open>devtools\<close>.
\<close>

definition working_gen :: "PRTime \<Rightarrow> nat \<Rightarrow> gen_env" where
  "working_gen t s =
     \<lparr>nss_error = (\<lambda>_. None), delete_error = (\<lambda>_. None), version_data = True, arena = True,
      gen_now = t, random_serial = s, gen_certDB = True\<rparr>"

definition steady :: get_env where
  "steady =
     \<lparr>certDB = True, gen_absent = working_gen (366 * oneDay) 3,
      val = devtools_validate_env, gen_invalid = working_gen (366 * oneDay) 4\<rparr>"


definition two_years_later :: get_env where
  "two_years_later =
     \<lparr>certDB = True, gen_absent = working_gen (1100 * oneDay) 5,
      val = \<lparr>GetIsSelfSigned_rv = NS_OK, validate_now = 1100 * oneDay\<rparr>,
      gen_invalid = working_gen (1100 * oneDay) 6\<rparr>"

definition clock_stepped_back :: get_env where
  "clock_stepped_back =
     \<lparr>certDB = True, gen_absent = working_gen (10 * oneDay) 1,
      val = \<lparr>GetIsSelfSigned_rv = NS_OK, validate_now = 8 * oneDay\<rparr>,
      gen_invalid = working_gen (8 * oneDay) 2\<rparr>"


definition ca_issued :: certificate where
  "ca_issued =
     \<lparr>nickname = ''devtools'', isRoot = False, subjectName = ''CN=devtools'',
      issuerName = ''CN=Some CA'', notBefore = 0, notAfter = 730 * oneDay, serialNumber = 7\<rparr>"

section \<open>Facts about the store, the purge and the generation\<close>

lemma FindByNickname_Some:
  "FindByNickname n w = Some c \<Longrightarrow> c \<in> set (certs w) \<and> nickname c = n"
  by (auto simp: FindByNickname_def find_Some_iff)

lemma FindByNickname_None: "(FindByNickname n w = None) = (under n w = [])"
  by (auto simp: FindByNickname_def under_def find_None_iff filter_empty_conv)

lemma FindByNickname_logged [simp]: "FindByNickname n (logged c w) = FindByNickname n w"
  by (simp add: FindByNickname_def logged_def)

lemma certs_logged [simp]: "certs (logged c w) = certs w"
  by (simp add: logged_def)

lemma log_logged [simp]: "log (logged c w) = log w @ [c]"
  by (simp add: logged_def)

lemma under_logged [simp]: "under n (logged c w) = under n w"
  by (simp add: under_def)

lemma generate_calls_append [simp]:
  "generate_calls (xs @ ys) = generate_calls xs + generate_calls ys"
  by (simp add: generate_calls_def)

lemma generate_calls_simps [simp]:
  "generate_calls [] = 0"
  "generate_calls (c # l) = (if c = KeySlotRequested then 1 else 0) + generate_calls l"
  by (simp_all add: generate_calls_def)

lemma find_append_None:
  "find P xs = None \<Longrightarrow> find P (xs @ ys) = find P ys"
  by (induction xs) (auto split: if_splits)

lemma first_error_single:
  "first_error f [s] = (case f s of Some code \<Rightarrow> NS_ERROR_NSS code | None \<Rightarrow> NS_OK)"
  by (simp split: option.splits)

lemma foreign_new_certificate [simp]: "\<not> foreign (new_certificate n t s)"
  by (simp add: foreign_def ours_def new_certificate_def)

lemma ours_new_certificate [simp]: "ours n (new_certificate n t s)"
  by (simp add: ours_def new_certificate_def)

lemma nickname_new_certificate [simp]: "nickname (new_certificate n t s) = n"
  by (simp add: new_certificate_def)

text \<open>
  The purge deletes certificates of the service's own only, never lets the number of
  certificates under the nickname grow, leaves none under it when it succeeds, and does not
  ask for the key slot. It stops with \<open>NS_ERROR_UNEXPECTED\<close>, before any deletion, when
  the lookup returns a certificate that is not the service's own.
\<close>

lemma RemoveExisting_foreign:
  "filter foreign (certs (snd (RemoveExisting del n w))) = filter foreign (certs w)"
proof (induction del n w rule: RemoveExisting.induct)
  case (1 del n w)
  show ?case
  proof (cases "FindByNickname n w")
    case None
    then show ?thesis by (simp add: RemoveExisting.simps [of del n w])
  next
    case (Some cert)
    then have nick: "nickname cert = n" by (simp add: FindByNickname_Some)
    show ?thesis
    proof (cases "ours n cert \<and> del cert = None")
      case False
      then show ?thesis using Some
        by (auto simp: RemoveExisting.simps [of del n w] ours_def Let_def split: option.splits)
    next
      case True
      then have own: "\<not> foreign cert" using nick by (simp add: foreign_def)
      have step: "RemoveExisting del n w =
          RemoveExisting del n ((logged (DeleteCertAndKey cert) (logged (LookupPK11 n) w))
             \<lparr>certs := remove1 cert (certs (logged (DeleteCertAndKey cert) (logged (LookupPK11 n) w)))\<rparr>)"
        using True Some by (simp add: RemoveExisting.simps [of del n w] ours_def Let_def)
      have "filter foreign (remove1 cert (certs w)) = filter foreign (certs w)"
        using own by (simp add: filter_remove1 remove1_idem)
      then show ?thesis
        using "1.IH" [OF refl Some _ _ _ refl, of] True Some step
        by (simp add: ours_def)
    qed
  qed
qed

lemma RemoveExisting_summary:
  "length (under n (snd (RemoveExisting del n w))) \<le> length (under n w)
   \<and> (fst (RemoveExisting del n w) = NS_OK \<longrightarrow> FindByNickname n (snd (RemoveExisting del n w)) = None)
   \<and> generate_calls (log (snd (RemoveExisting del n w))) = generate_calls (log w)"
proof (induction del n w rule: RemoveExisting.induct)
  case (1 del n w)
  show ?case
  proof (cases "FindByNickname n w")
    case None
    then show ?thesis by (simp add: RemoveExisting.simps [of del n w])
  next
    case (Some cert)
    show ?thesis
    proof (cases "ours n cert \<and> del cert = None")
      case False
      then show ?thesis using Some
        by (auto simp: RemoveExisting.simps [of del n w] ours_def Let_def split: option.splits)
    next
      case True
      have step: "RemoveExisting del n w =
          RemoveExisting del n ((logged (DeleteCertAndKey cert) (logged (LookupPK11 n) w))
             \<lparr>certs := remove1 cert (certs (logged (DeleteCertAndKey cert) (logged (LookupPK11 n) w)))\<rparr>)"
        using True Some by (simp add: RemoveExisting.simps [of del n w] ours_def Let_def)
      have "length (filter (\<lambda>c. nickname c = n) (remove1 cert (certs w)))
              < length (filter (\<lambda>c. nickname c = n) (certs w))"
        using Some by (simp add: FindByNickname_def find_nickname_under)
      then show ?thesis
        using "1.IH" [OF refl Some _ _ _ refl, of] True Some step
        by (simp add: ours_def under_def)
    qed
  qed
qed






text \<open>
  \<^verbatim>\<open>Generate\<close> along its three ways out: no key slot, a failed purge, and everything after
  a purge that succeeded.
\<close>

lemma Generate_slot_failed:
  assumes "nss_error e PK11_GetInternalKeySlot = Some code"
  shows "Generate e n mc w = (NS_ERROR_NSS code, mc, logged KeySlotRequested w)"
  using assms by (simp add: Generate_def Let_def NS_FAILED_def)

lemma Generate_purge_failed:
  assumes "nss_error e PK11_GetInternalKeySlot = None"
    and "RemoveExisting (delete_error e) n (logged KeySlotRequested w) = (rv, w2)"
    and "NS_FAILED rv"
  shows "Generate e n mc w = (rv, mc, w2)"
  using assms by (simp add: Generate_def Let_def NS_FAILED_def)

lemma Generate_after_purge:
  assumes "nss_error e PK11_GetInternalKeySlot = None"
    and "RemoveExisting (delete_error e) n (logged KeySlotRequested w) = (NS_OK, w2)"
    and "Generate e n mc w = (rv, mc', w')"
    and "cert = new_certificate n (gen_now e) (random_serial e)"
  shows "generate_calls (log w') = generate_calls (log w2)
       \<and> (certs w' = certs w2 \<or> certs w' = certs w2 @ [cert])
       \<and> (NS_FAILED rv \<longrightarrow> mc' = mc)
       \<and> (\<not> NS_FAILED rv \<longrightarrow> rv = NS_OK \<and> mc' = Some cert \<and> certs w' = certs w2 @ [cert]
             \<and> log w' = log w2 @ [KeyPairRequested, ImportRequested cert, LookupCertDB n])"
proof -
  have none: "FindByNickname n w2 = None"
    using RemoveExisting_summary [of n "delete_error e" "logged KeySlotRequested w"] assms(2) by simp
  have found: "FindByNickname n (logged c (w2\<lparr>certs := certs w2 @ [cert]\<rparr>)) = Some cert" for c
    using none assms(4)
    by (simp add: FindByNickname_def logged_def find_append_None new_certificate_def)
  show ?thesis
    using assms(1,2,3) found [of "ImportRequested cert"] assms(4) [symmetric]
    by (auto simp: Generate_def Let_def GetFromDB_def NS_FAILED_def logged_def FindByNickname_def
          first_error_single split: if_splits option.splits simp del: first_error.simps)
qed

lemma Generate_summary:
  assumes "Generate e n mc w = (rv, mc', w')"
    and "cert = new_certificate n (gen_now e) (random_serial e)"
  shows "generate_calls (log w') = generate_calls (log w) + 1
       \<and> filter foreign (certs w') = filter foreign (certs w)
       \<and> length (under n w') \<le> max 1 (length (under n w))
       \<and> (NS_FAILED rv \<longrightarrow> mc' = mc)
       \<and> (\<not> NS_FAILED rv \<longrightarrow> rv = NS_OK \<and> mc' = Some cert \<and> FindByNickname n w' = Some cert)"
proof (cases "nss_error e PK11_GetInternalKeySlot")
  case (Some code)
  show ?thesis
    using assms(1) Generate_slot_failed [OF Some, of n mc w]
    by (auto simp: NS_FAILED_def)
next
  case None
  obtain rv2 w2 where purge: "RemoveExisting (delete_error e) n (logged KeySlotRequested w) = (rv2, w2)"
    by (cases "RemoveExisting (delete_error e) n (logged KeySlotRequested w)") auto
  have calls2: "generate_calls (log w2) = generate_calls (log w) + 1"
    using RemoveExisting_summary [of n "delete_error e" "logged KeySlotRequested w"] purge by simp
  have under2: "length (under n w2) \<le> length (under n w)"
    using RemoveExisting_summary [of n "delete_error e" "logged KeySlotRequested w"] purge by simp
  have foreign2: "filter foreign (certs w2) = filter foreign (certs w)"
    using RemoveExisting_foreign [of "delete_error e" n "logged KeySlotRequested w"] purge by simp
  show ?thesis
  proof (cases "NS_FAILED rv2")
    case True
    show ?thesis
      using assms(1) Generate_purge_failed [OF None purge True, of mc] True calls2 under2 foreign2
      by auto
  next
    case False
    then have ok: "rv2 = NS_OK" by (simp add: NS_FAILED_def)
    have none2: "under n w2 = []"
      using RemoveExisting_summary [of n "delete_error e" "logged KeySlotRequested w"] purge ok
      by (simp add: FindByNickname_None)
    note ap = Generate_after_purge [OF None purge [unfolded ok] assms(1) assms(2)]
    have certs': "certs w' = certs w2 \<or> certs w' = certs w2 @ [cert]" using ap by simp
    have u: "length (under n w') \<le> 1"
      using certs' none2 by (auto simp: under_def)
    have f: "filter foreign (certs w') = filter foreign (certs w)"
      using certs' foreign2 assms(2) by auto
    have found: "\<not> NS_FAILED rv \<longrightarrow> FindByNickname n w' = Some cert"
      using ap none2 assms(2)
      by (auto simp: FindByNickname_def under_def find_append_None filter_empty_conv find_None_iff)
    show ?thesis using ap calls2 u f found by auto
  qed
qed



text \<open>
  \<^verbatim>\<open>CalculateResult\<close> when the first lookup finds a record, and when it does not. It always
  has a result: \<^verbatim>\<open>mCert\<close> is set whenever \<^verbatim>\<open>Validate\<close> is reached.
\<close>

lemma Validate_ok_ours: "\<not> NS_FAILED (Validate ve n c) \<Longrightarrow> ours n c"
  by (auto simp: Validate_def Let_def NS_FAILED_def ours_def split: if_splits)

lemma Validate_new_certificate:
  assumes "GetIsSelfSigned_rv ve = NS_OK"
    and "t - oneDay \<le> validate_now ve" and "validate_now ve \<le> t + 366 * oneDay"
  shows "Validate ve n (new_certificate n t s) = NS_OK"
  using assms by (simp add: Validate_def Let_def NS_FAILED_def new_certificate_def)

lemma CalculateResult_found:
  assumes "certDB e" and "FindByNickname n w = Some c"
  shows "CalculateResult e n mc w =
     (if NS_FAILED (Validate (val e) n c)
      then Some (Generate (gen_invalid e) n (Some c) (logged (LookupCertDB n) w))
      else Some (NS_OK, Some c, logged (LookupCertDB n) w))"
  using assms
  by (auto simp: CalculateResult_def GetFromDB_def Let_def NS_FAILED_def split: prod.splits)

lemma CalculateResult_lookup_failed:
  assumes "\<not> certDB e \<or> FindByNickname n w = None"
    and "Generate (gen_absent e) n mc (if certDB e then logged (LookupCertDB n) w else w) = (rvA, mcA, wA)"
  shows "CalculateResult e n mc w =
     (if NS_FAILED rvA then Some (rvA, mcA, wA)
      else Some (if NS_FAILED (Validate (val e) n (new_certificate n (gen_now (gen_absent e)) (random_serial (gen_absent e))))
                 then Generate (gen_invalid e) n mcA wA
                 else (NS_OK, mcA, wA)))"
proof -
  have get: "GetFromDB (certDB e) n mc w =
      (NS_ERROR_FAILURE, mc, if certDB e then logged (LookupCertDB n) w else w)"
    using assms(1) by (auto simp: GetFromDB_def Let_def)
  have mcA: "\<not> NS_FAILED rvA \<Longrightarrow>
      mcA = Some (new_certificate n (gen_now (gen_absent e)) (random_serial (gen_absent e)))"
    using Generate_summary [OF assms(2) refl] by simp
  show ?thesis
  proof (cases "NS_FAILED rvA")
    case True
    then show ?thesis using get assms(2)
      by (simp add: CalculateResult_def NS_FAILED_def)
  next
    case False
    then show ?thesis using get assms(2) mcA [OF False]
      by (auto simp: CalculateResult_def NS_FAILED_def Let_def split: prod.splits)
  qed
qed

lemma CalculateResult_summary:
  "\<exists>rv mc' w'. CalculateResult e n mc w = Some (rv, mc', w')
     \<and> generate_calls (log w') \<le> generate_calls (log w) + 2
     \<and> filter foreign (certs w') = filter foreign (certs w)
     \<and> length (under n w') \<le> max 1 (length (under n w))
     \<and> (rv = NS_OK \<longrightarrow> (\<exists>c. mc' = Some c \<and> FindByNickname n w' = Some c \<and> ours n c))"
proof (cases "certDB e \<and> FindByNickname n w \<noteq> None")
  case True
  then obtain c where db: "certDB e" and c: "FindByNickname n w = Some c" by auto
  show ?thesis
  proof (cases "NS_FAILED (Validate (val e) n c)")
    case False
    then show ?thesis
      using CalculateResult_found [OF db c, of mc] Validate_ok_ours [OF False] c by simp
  next
    case True
    obtain rv mc' w' where g: "Generate (gen_invalid e) n (Some c) (logged (LookupCertDB n) w) = (rv, mc', w')"
      by (cases "Generate (gen_invalid e) n (Some c) (logged (LookupCertDB n) w)") auto
    have "CalculateResult e n mc w = Some (rv, mc', w')"
      using CalculateResult_found [OF db c, of mc] True g by simp
    then show ?thesis
      using Generate_summary [OF g refl] by (auto simp: NS_FAILED_def)
  qed
next
  case False
  then have absent: "\<not> certDB e \<or> FindByNickname n w = None" by auto
  define w1 where "w1 = (if certDB e then logged (LookupCertDB n) w else w)"
  have w1: "generate_calls (log w1) = generate_calls (log w)" "certs w1 = certs w" "under n w1 = under n w"
    by (simp_all add: w1_def)
  obtain rvA mcA wA where gA: "Generate (gen_absent e) n mc w1 = (rvA, mcA, wA)"
    by (cases "Generate (gen_absent e) n mc w1") auto
  note sA = Generate_summary [OF gA refl]
  note cr = CalculateResult_lookup_failed [OF absent gA [unfolded w1_def]]
  show ?thesis
  proof (cases "NS_FAILED rvA")
    case True
    then show ?thesis using cr sA w1 by (auto simp: NS_FAILED_def)
  next
    case okA: False
    show ?thesis
    proof (cases "NS_FAILED (Validate (val e) n (new_certificate n (gen_now (gen_absent e)) (random_serial (gen_absent e))))")
      case False
      then show ?thesis using cr sA w1 okA by (auto simp: NS_FAILED_def)
    next
      case True
      obtain rv mc' w' where g: "Generate (gen_invalid e) n mcA wA = (rv, mc', w')"
        by (cases "Generate (gen_invalid e) n mcA wA") auto
      have "CalculateResult e n mc w = Some (rv, mc', w')"
        using cr okA True g by simp
      then show ?thesis
        using Generate_summary [OF g refl] sA w1 by (auto simp: NS_FAILED_def)
    qed
  qed
qed

lemma serve_at_most_one:
  assumes "length (under n w) \<le> 1"
  shows "\<exists>ev w'. serve n r w = Some (ev, w') \<and> length (under n w') \<le> 1"
proof (cases r)
  case (GetOrCreate e cb)
  obtain rv mc' w' where "CalculateResult e n None w = Some (rv, mc', w')"
    and "length (under n w') \<le> max 1 (length (under n w))"
    using CalculateResult_summary [of e n None w] by blast
  then show ?thesis using assms GetOrCreate
    by (simp add: run_LocalCertGetTask_def)
next
  case (Remove del cb)
  have "length (under n (snd (RemoveExisting del n w))) \<le> length (under n w)"
    using RemoveExisting_summary [of n del w] by simp
  then show ?thesis using assms Remove
    by (cases "RemoveExisting del n w") (simp add: run_LocalCertRemoveTask_def)
qed

section \<open>Validate\<close>

text \<open>
  C4. For a record that is self-signed and whose subject and issuer are both
  \<^verbatim>\<open>"CN=" + nickname\<close>, \<^verbatim>\<open>Validate\<close> fails exactly when \<^verbatim>\<open>notBefore > now\<close> or
  \<^verbatim>\<open>notAfter < now - oneDay\<close>. So a certificate with \<^verbatim>\<open>notAfter = now - oneDay\<close> (and
  \<^verbatim>\<open>notBefore\<close> not in the future) is accepted, and one whose \<^verbatim>\<open>notAfter\<close> is a second
  (\<^verbatim>\<open>PR_USEC_PER_SEC\<close> microseconds) earlier is rejected.
\<close>

theorem Validate_time_window:
  assumes "GetIsSelfSigned_rv e = NS_OK" and "isRoot c"
    and "subjectName c = issuerName c" and "subjectName c = commonNamePrefix @ n"
  shows "(NS_FAILED (Validate e n c) \<longleftrightarrow>
            (notBefore c > validate_now e \<or> notAfter c < validate_now e - oneDay))
       \<and> (notAfter c = validate_now e - oneDay \<and> notBefore c \<le> validate_now e
            \<longrightarrow> Validate e n c = NS_OK)
       \<and> (notAfter c = validate_now e - oneDay - PR_USEC_PER_SEC
            \<longrightarrow> Validate e n c = NS_ERROR_FAILURE)"
  using assms by (simp add: Validate_def Let_def NS_FAILED_def PR_USEC_PER_SEC_def)

text \<open>
  The boundary scenario: issued at time 0, so valid until day 365, and evaluated on day 366;
  then with the expiry one second earlier.
\<close>

theorem Validate_time_window_witness:
  "Validate devtools_validate_env ''devtools'' (new_certificate ''devtools'' 0 1) = NS_OK
   \<and> Validate devtools_validate_env ''devtools''
        ((new_certificate ''devtools'' 0 1)\<lparr>notAfter := 365 * oneDay - PR_USEC_PER_SEC\<rparr>) = NS_ERROR_FAILURE"
  using Validate_time_window [of devtools_validate_env "new_certificate ''devtools'' 0 1" "''devtools''"]
    Validate_time_window [of devtools_validate_env
      "(new_certificate ''devtools'' 0 1)\<lparr>notAfter := 365 * oneDay - PR_USEC_PER_SEC\<rparr>" "''devtools''"]
  by (simp add: devtools_validate_env_def new_certificate_def oneDay_def PR_USEC_PER_SEC_def)

text \<open>
  C8, as the code has it. \<^verbatim>\<open>Validate\<close> has one failure code for its four checks: it
  returns \<open>NS_ERROR_FAILURE\<close> whichever of them fails, and \<open>NS_OK\<close> when all hold. (When the
  query \<^verbatim>\<open>GetIsSelfSigned\<close> itself fails, its status is passed on.) The result does not tell
  the caller which check failed.
\<close>

theorem Validate_one_failure_code:
  "Validate e n c =
     (if NS_FAILED (GetIsSelfSigned_rv e) then GetIsSelfSigned_rv e
      else if isRoot c \<and> subjectName c = issuerName c \<and> subjectName c = commonNamePrefix @ n
              \<and> notBefore c \<le> validate_now e \<and> validate_now e - oneDay \<le> notAfter c
           then NS_OK else NS_ERROR_FAILURE)"
  by (simp add: Validate_def Let_def not_less)

text \<open>
  Four records for the nickname \<^verbatim>\<open>devtools\<close>, each failing one check only: not self-signed,
  issuer differing from subject, subject of another nickname, expired more than a day ago.
  All four get the same result.
\<close>

theorem Validate_kinds_counterexample:
  "Validate devtools_validate_env ''devtools'' ((new_certificate ''devtools'' (366 * oneDay) 1)\<lparr>isRoot := False\<rparr>)
     = NS_ERROR_FAILURE
   \<and> Validate devtools_validate_env ''devtools'' ((new_certificate ''devtools'' (366 * oneDay) 1)\<lparr>issuerName := ''CN=Some CA''\<rparr>)
     = NS_ERROR_FAILURE
   \<and> Validate devtools_validate_env ''devtools'' (new_certificate ''other'' (366 * oneDay) 1)
     = NS_ERROR_FAILURE
   \<and> Validate devtools_validate_env ''devtools'' (new_certificate ''devtools'' (- 2 * oneDay) 1)
     = NS_ERROR_FAILURE"
  by (simp add: Validate_def devtools_validate_env_def new_certificate_def NS_FAILED_def
       commonNamePrefix_def oneDay_def PR_USEC_PER_SEC_def)

section \<open>The get-or-create task\<close>

text \<open>
  C9. When the lookup finds a record under the nickname and the record passes \<^verbatim>\<open>Validate\<close>,
  \<^verbatim>\<open>CalculateResult\<close> succeeds with that record and leaves the certificates of the store as
  they were; the one call it adds to the log is the lookup: no key slot, no deletion, no key
  pair, no import.
\<close>

theorem valid_record_left_alone:
  assumes "certDB e" and "FindByNickname n w = Some c" and "Validate (val e) n c = NS_OK"
  shows "\<exists>w'. CalculateResult e n None w = Some (NS_OK, Some c, w')
           \<and> certs w' = certs w \<and> log w' = log w @ [LookupCertDB n]"
  using CalculateResult_found [OF assms(1,2), of None] assms(3) by (simp add: NS_FAILED_def)

lemma steady_found:
  "FindByNickname ''devtools'' \<lparr>certs = [new_certificate ''devtools'' (365 * oneDay) 1, ca_issued], log = []\<rparr>
     = Some (new_certificate ''devtools'' (365 * oneDay) 1)"
  by code_simp

lemma steady_valid:
  "Validate (val steady) ''devtools'' (new_certificate ''devtools'' (365 * oneDay) 1) = NS_OK"
  by code_simp

lemma steady_certDB: "certDB steady"
  by code_simp

theorem valid_record_left_alone_witness:
  "\<exists>w'. CalculateResult steady ''devtools'' None
           \<lparr>certs = [new_certificate ''devtools'' (365 * oneDay) 1, ca_issued], log = []\<rparr> =
         Some (NS_OK, Some (new_certificate ''devtools'' (365 * oneDay) 1), w')
       \<and> certs w' = [new_certificate ''devtools'' (365 * oneDay) 1, ca_issued]
       \<and> log w' = [LookupCertDB ''devtools'']"
  using valid_record_left_alone [OF steady_certDB steady_found steady_valid]
  by simp

text \<open>
  C1, as the code has it. \<^verbatim>\<open>CalculateResult\<close> always returns, and answers a failed lookup
  and a failed validation alike, by calling \<^verbatim>\<open>Generate\<close>, in two places one after the other
  and with no loop. So \<^verbatim>\<open>Generate\<close> is entered at most twice in a run, and at most once when
  the lookup found a record (exactly once when that record failed validation, the result
  being that of \<^verbatim>\<open>Generate\<close>). After a failed lookup the first \<^verbatim>\<open>Generate\<close> decides: when it
  fails, the run fails with its status; when it succeeds, the new certificate is validated,
  and a failure there leads to the second \<^verbatim>\<open>Generate\<close>, whose result is the run's. The new
  certificate passes, so that \<^verbatim>\<open>Generate\<close> is entered at most once, whenever
  \<^verbatim>\<open>GetIsSelfSigned\<close> answers and the clock reading of \<^verbatim>\<open>Validate\<close> is no more than a day
  before and no more than 366 days after the reading of \<^verbatim>\<open>Generate\<close>.
\<close>

theorem CalculateResult_fallbacks:
  "\<exists>rv mc' w'. CalculateResult e n None w = Some (rv, mc', w')
     \<and> generate_calls (log w') \<le> generate_calls (log w) + 2
     \<and> (certDB e \<and> FindByNickname n w \<noteq> None \<longrightarrow>
           generate_calls (log w') \<le> generate_calls (log w) + 1)
     \<and> (GetIsSelfSigned_rv (val e) = NS_OK
         \<and> gen_now (gen_absent e) - oneDay \<le> validate_now (val e)
         \<and> validate_now (val e) \<le> gen_now (gen_absent e) + 366 * oneDay \<longrightarrow>
           generate_calls (log w') \<le> generate_calls (log w) + 1)
     \<and> (\<forall>c. certDB e \<and> FindByNickname n w = Some c \<and> NS_FAILED (Validate (val e) n c) \<longrightarrow>
           (rv, mc', w') = Generate (gen_invalid e) n (Some c) (logged (LookupCertDB n) w)
           \<and> generate_calls (log w') = generate_calls (log w) + 1)
     \<and> (\<forall>rvA mcA wA.
           (\<not> certDB e \<or> FindByNickname n w = None)
           \<and> Generate (gen_absent e) n None (if certDB e then logged (LookupCertDB n) w else w) = (rvA, mcA, wA)
           \<longrightarrow> (NS_FAILED rvA \<longrightarrow> (rv, mc', w') = (rvA, mcA, wA))
             \<and> (\<not> NS_FAILED rvA \<longrightarrow>
                   (\<exists>c. mcA = Some c
                      \<and> (NS_FAILED (Validate (val e) n c) \<longrightarrow>
                            (rv, mc', w') = Generate (gen_invalid e) n mcA wA)
                      \<and> (\<not> NS_FAILED (Validate (val e) n c) \<longrightarrow> (rv, mc', w') = (NS_OK, mcA, wA)))))"
proof (cases "certDB e \<and> FindByNickname n w \<noteq> None")
  case True
  then obtain c where db: "certDB e" and c: "FindByNickname n w = Some c" by auto
  note cr = CalculateResult_found [OF db c, of None]
  show ?thesis
  proof (cases "NS_FAILED (Validate (val e) n c)")
    case False
    then show ?thesis using cr db c by simp
  next
    case True
    obtain rv mc' w' where g: "Generate (gen_invalid e) n (Some c) (logged (LookupCertDB n) w) = (rv, mc', w')"
      by (cases "Generate (gen_invalid e) n (Some c) (logged (LookupCertDB n) w)") auto
    have calls: "generate_calls (log w') = generate_calls (log w) + 1"
      using Generate_summary [OF g refl] by simp
    show ?thesis using cr True g calls db c by simp
  qed
next
  case False
  then have absent: "\<not> certDB e \<or> FindByNickname n w = None" by auto
  define w1 where "w1 = (if certDB e then logged (LookupCertDB n) w else w)"
  have w1: "generate_calls (log w1) = generate_calls (log w)"
    by (simp add: w1_def)
  obtain rvA mcA wA where gA: "Generate (gen_absent e) n None w1 = (rvA, mcA, wA)"
    by (cases "Generate (gen_absent e) n None w1") auto
  note sA = Generate_summary [OF gA refl]
  note cr = CalculateResult_lookup_failed [OF absent gA [unfolded w1_def]]
  show ?thesis
  proof (cases "NS_FAILED rvA")
    case True
    then show ?thesis using cr sA w1 gA False by (auto simp: w1_def)
  next
    case okA: False
    let ?c = "new_certificate n (gen_now (gen_absent e)) (random_serial (gen_absent e))"
    have mcA: "mcA = Some ?c" using sA okA by simp
    show ?thesis
    proof (cases "NS_FAILED (Validate (val e) n ?c)")
      case False
      then show ?thesis using cr sA w1 okA gA mcA \<open>\<not> (certDB e \<and> FindByNickname n w \<noteq> None)\<close>
        by (auto simp: w1_def)
    next
      case True
      obtain rv mc' w' where g: "Generate (gen_invalid e) n mcA wA = (rv, mc', w')"
        by (cases "Generate (gen_invalid e) n mcA wA") auto
      have res: "CalculateResult e n None w = Some (rv, mc', w')"
        using cr okA True g by simp
      have calls: "generate_calls (log w') = generate_calls (log w) + 2"
        using Generate_summary [OF g refl] sA w1 by simp
      have odd: "\<not> (GetIsSelfSigned_rv (val e) = NS_OK
         \<and> gen_now (gen_absent e) - oneDay \<le> validate_now (val e)
         \<and> validate_now (val e) \<le> gen_now (gen_absent e) + 366 * oneDay)"
        using True Validate_new_certificate [of "val e" "gen_now (gen_absent e)" n "random_serial (gen_absent e)"]
        by (auto simp: NS_FAILED_def)
      show ?thesis using res calls odd okA gA mcA True g \<open>\<not> (certDB e \<and> FindByNickname n w \<noteq> None)\<close>
        by (auto simp: w1_def)
    qed
  qed
qed

text \<open>
  A run that enters \<^verbatim>\<open>Generate\<close> twice: the store is empty, \<^verbatim>\<open>Generate\<close> reads the clock on
  day 10 and issues a certificate valid from day 9, and \<^verbatim>\<open>Validate\<close> reads the clock on
  day 8 (the clock was set back in between), so the new certificate is not yet valid and is
  replaced.
\<close>

theorem Generate_invoked_twice_counterexample:
  "CalculateResult clock_stepped_back ''devtools'' None empty_world =
     Some (NS_OK, Some (new_certificate ''devtools'' (8 * oneDay) 2),
       \<lparr>certs = [new_certificate ''devtools'' (8 * oneDay) 2],
        log = [LookupCertDB ''devtools'',
               KeySlotRequested, LookupPK11 ''devtools'', KeyPairRequested,
               ImportRequested (new_certificate ''devtools'' (10 * oneDay) 1), LookupCertDB ''devtools'',
               KeySlotRequested, LookupPK11 ''devtools'',
               DeleteCertAndKey (new_certificate ''devtools'' (10 * oneDay) 1), LookupPK11 ''devtools'',
               KeyPairRequested,
               ImportRequested (new_certificate ''devtools'' (8 * oneDay) 2), LookupCertDB ''devtools'']\<rparr>)
   \<and> generate_calls
        [LookupCertDB ''devtools'',
         KeySlotRequested, LookupPK11 ''devtools'', KeyPairRequested,
         ImportRequested (new_certificate ''devtools'' (10 * oneDay) 1), LookupCertDB ''devtools'',
         KeySlotRequested, LookupPK11 ''devtools'',
         DeleteCertAndKey (new_certificate ''devtools'' (10 * oneDay) 1), LookupPK11 ''devtools'',
         KeyPairRequested,
         ImportRequested (new_certificate ''devtools'' (8 * oneDay) 2), LookupCertDB ''devtools''] = 2"
  by code_simp

lemma stepped_back_first_Generate:
  "Generate (gen_absent clock_stepped_back) ''devtools'' None
      (if certDB clock_stepped_back then logged (LookupCertDB ''devtools'') empty_world else empty_world) =
    (NS_OK, Some (new_certificate ''devtools'' (10 * oneDay) 1),
     \<lparr>certs = [new_certificate ''devtools'' (10 * oneDay) 1],
      log = [LookupCertDB ''devtools'', KeySlotRequested, LookupPK11 ''devtools'', KeyPairRequested,
             ImportRequested (new_certificate ''devtools'' (10 * oneDay) 1), LookupCertDB ''devtools'']\<rparr>)"
  by code_simp

lemma stepped_back_Validate:
  "NS_FAILED (Validate (val clock_stepped_back) ''devtools'' (new_certificate ''devtools'' (10 * oneDay) 1))"
  by code_simp

lemma stepped_back_absent: "FindByNickname ''devtools'' empty_world = None"
  by code_simp

theorem CalculateResult_fallbacks_witness:
  "CalculateResult clock_stepped_back ''devtools'' None empty_world =
     Some (Generate (gen_invalid clock_stepped_back) ''devtools''
             (Some (new_certificate ''devtools'' (10 * oneDay) 1))
             \<lparr>certs = [new_certificate ''devtools'' (10 * oneDay) 1],
              log = [LookupCertDB ''devtools'', KeySlotRequested, LookupPK11 ''devtools'', KeyPairRequested,
                     ImportRequested (new_certificate ''devtools'' (10 * oneDay) 1),
                     LookupCertDB ''devtools'']\<rparr>)"
  using CalculateResult_fallbacks [of clock_stepped_back "''devtools''" empty_world]
    stepped_back_first_Generate stepped_back_Validate stepped_back_absent
  by (auto simp: NS_FAILED_def)

section \<open>Foreign certificates and the at-most-one invariant\<close>







text \<open>
  C3. Starting from a store with at most one certificate under the nickname, every sequence
  of get-or-create and remove requests on that nickname, whatever NSS answers in each, runs
  to the end (one callback for each request) and leaves at most one certificate under the
  nickname.
\<close>

theorem at_most_one_certificate:
  assumes "length (under n w) \<le> 1"
  shows "\<exists>evs w'. serve_all n rs w = Some (evs, w') \<and> length evs = length rs
           \<and> length (under n w') \<le> 1"
  using assms
proof (induction rs arbitrary: w)
  case Nil
  then show ?case by simp
next
  case (Cons r rs)
  obtain ev w1 where s: "serve n r w = Some (ev, w1)" and u: "length (under n w1) \<le> 1"
    using serve_at_most_one [OF Cons.prems, of r] by blast
  obtain evs w' where "serve_all n rs w1 = Some (evs, w')" "length evs = length rs"
      "length (under n w') \<le> 1"
    using Cons.IH [OF u] by blast
  then show ?case using s by simp
qed

theorem at_most_one_certificate_witness:
  "length (under ''devtools'' empty_world) \<le> 1
   \<and> (\<exists>evs w'. serve_all ''devtools''
          [GetOrCreate steady 0, Remove (\<lambda>c. None) 1, GetOrCreate two_years_later 2] empty_world
            = Some (evs, w')
        \<and> length evs = 3 \<and> length (under ''devtools'' w') \<le> 1)"
proof -
  have h: "length (under ''devtools'' empty_world) \<le> 1" by code_simp
  show ?thesis
    using h at_most_one_certificate [OF h,
      of "[GetOrCreate steady 0, Remove (\<lambda>c. None) 1, GetOrCreate two_years_later 2]"]
    by (simp add: numeral_3_eq_3)
qed

text \<open>
  C5, as the code has it. When a first get-or-create task has handed certificate \<open>c\<close> to its
  callback with \<open>NS_OK\<close>, a second task on the same nickname, run on the store the first one
  left, hands the same \<open>c\<close> to its callback with \<open>NS_OK\<close>, provided the certificate database
  service and \<^verbatim>\<open>GetIsSelfSigned\<close> answer and \<open>c\<close> is still inside the window of \<^verbatim>\<open>Validate\<close>
  at the second clock reading. The second task only looks the certificate up: the store is
  unchanged and \<^verbatim>\<open>Generate\<close> is not entered.
\<close>

theorem second_call_returns_same_certificate:
  assumes "run_LocalCertGetTask e1 n cb1 w = Some (HandleCert cb1 (Some c) NS_OK, w1)"
    and "certDB e2" and "GetIsSelfSigned_rv (val e2) = NS_OK"
    and "notBefore c \<le> validate_now (val e2)" and "validate_now (val e2) - oneDay \<le> notAfter c"
  shows "run_LocalCertGetTask e2 n cb2 w1 =
           Some (HandleCert cb2 (Some c) NS_OK, logged (LookupCertDB n) w1)"
proof -
  have first: "CalculateResult e1 n None w = Some (NS_OK, Some c, w1)"
    using assms(1) by (auto simp: run_LocalCertGetTask_def split: option.splits)
  have found: "FindByNickname n w1 = Some c" and own: "ours n c"
    using CalculateResult_summary [of e1 n None w] first by auto
  have "Validate (val e2) n c = NS_OK"
    using own assms(3,4,5) by (simp add: Validate_def Let_def NS_FAILED_def ours_def)
  then have "CalculateResult e2 n None w1 = Some (NS_OK, Some c, logged (LookupCertDB n) w1)"
    using CalculateResult_found [OF assms(2) found, of None] by (simp add: NS_FAILED_def)
  then show ?thesis by (simp add: run_LocalCertGetTask_def)
qed

text \<open>
  Two calls in sequence that deliver different certificates: the first, on day 366, creates
  a certificate valid until day 731; the second, on day 1100, finds it expired and
  replaces it.
\<close>

theorem second_call_regenerates_counterexample:
  "run_LocalCertGetTask steady ''devtools'' 0 empty_world =
     Some (HandleCert 0 (Some (new_certificate ''devtools'' (366 * oneDay) 3)) NS_OK,
       \<lparr>certs = [new_certificate ''devtools'' (366 * oneDay) 3],
        log = [LookupCertDB ''devtools'', KeySlotRequested, LookupPK11 ''devtools'', KeyPairRequested,
               ImportRequested (new_certificate ''devtools'' (366 * oneDay) 3),
               LookupCertDB ''devtools'']\<rparr>)
   \<and> run_LocalCertGetTask two_years_later ''devtools'' 1
       \<lparr>certs = [new_certificate ''devtools'' (366 * oneDay) 3],
        log = [LookupCertDB ''devtools'', KeySlotRequested, LookupPK11 ''devtools'', KeyPairRequested,
               ImportRequested (new_certificate ''devtools'' (366 * oneDay) 3),
               LookupCertDB ''devtools'']\<rparr> =
     Some (HandleCert 1 (Some (new_certificate ''devtools'' (1100 * oneDay) 6)) NS_OK,
       \<lparr>certs = [new_certificate ''devtools'' (1100 * oneDay) 6],
        log = [LookupCertDB ''devtools'', KeySlotRequested, LookupPK11 ''devtools'', KeyPairRequested,
               ImportRequested (new_certificate ''devtools'' (366 * oneDay) 3),
               LookupCertDB ''devtools'',
               LookupCertDB ''devtools'', KeySlotRequested, LookupPK11 ''devtools'',
               DeleteCertAndKey (new_certificate ''devtools'' (366 * oneDay) 3), LookupPK11 ''devtools'',
               KeyPairRequested, ImportRequested (new_certificate ''devtools'' (1100 * oneDay) 6),
               LookupCertDB ''devtools'']\<rparr>)
   \<and> new_certificate ''devtools'' (1100 * oneDay) 6 \<noteq> new_certificate ''devtools'' (366 * oneDay) 3"
  by code_simp

lemma steady_first_run:
  "run_LocalCertGetTask steady ''devtools'' 0 empty_world =
     Some (HandleCert 0 (Some (new_certificate ''devtools'' (366 * oneDay) 3)) NS_OK,
       \<lparr>certs = [new_certificate ''devtools'' (366 * oneDay) 3],
        log = [LookupCertDB ''devtools'', KeySlotRequested, LookupPK11 ''devtools'', KeyPairRequested,
               ImportRequested (new_certificate ''devtools'' (366 * oneDay) 3),
               LookupCertDB ''devtools'']\<rparr>)"
  by code_simp

theorem second_call_returns_same_certificate_witness:
  "run_LocalCertGetTask steady ''devtools'' 1
       \<lparr>certs = [new_certificate ''devtools'' (366 * oneDay) 3],
        log = [LookupCertDB ''devtools'', KeySlotRequested, LookupPK11 ''devtools'', KeyPairRequested,
               ImportRequested (new_certificate ''devtools'' (366 * oneDay) 3),
               LookupCertDB ''devtools'']\<rparr> =
     Some (HandleCert 1 (Some (new_certificate ''devtools'' (366 * oneDay) 3)) NS_OK,
       \<lparr>certs = [new_certificate ''devtools'' (366 * oneDay) 3],
        log = [LookupCertDB ''devtools'', KeySlotRequested, LookupPK11 ''devtools'', KeyPairRequested,
               ImportRequested (new_certificate ''devtools'' (366 * oneDay) 3),
               LookupCertDB ''devtools'', LookupCertDB ''devtools'']\<rparr>)"
  using second_call_returns_same_certificate [OF steady_first_run, of steady 1]
  by (simp add: steady_def devtools_validate_env_def new_certificate_def oneDay_def
        PR_USEC_PER_SEC_def logged_def)

section \<open>The entry points\<close>

lemma GetOrCreateCert_unlock_failed:
  assumes "aNickname \<noteq> []" and "LoginToKeySlot (login e) w = (rv, w1)" and "NS_FAILED rv"
  shows "GetOrCreateCert e aNickname (Some cb) w =
           \<lparr>returned = NS_OK, called_back = [HandleCert cb None rv], dispatched = [], after = w1\<rparr>"
  using assms by (simp add: GetOrCreateCert_def)

lemma RemoveCert_unlock_failed:
  assumes "aNickname \<noteq> []" and "LoginToKeySlot (login e) w = (rv, w1)" and "NS_FAILED rv"
  shows "RemoveCert e aNickname (Some cb) w =
           \<lparr>returned = NS_OK, called_back = [HandleResult cb rv], dispatched = [], after = w1\<rparr>"
  using assms by (simp add: RemoveCert_def)

lemma LoginToKeySlot_declined:
  "LoginToKeySlot login_declined empty_world =
     (NS_ERROR_FAILURE, \<lparr>certs = [], log = [KeySlotRequested, LoginPrompted]\<rparr>)"
  by (simp add: LoginToKeySlot_def login_declined_def empty_world_def logged_def NS_FAILED_def)

text \<open>
  C6. With an empty nickname or a null callback, \<^verbatim>\<open>GetOrCreateCert\<close> and \<^verbatim>\<open>RemoveCert\<close>
  return a failure at once (\<open>NS_ERROR_INVALID_ARG\<close> for the empty nickname, else
  \<open>NS_ERROR_INVALID_POINTER\<close> for the null callback: the two codes of the spec's
  \<^verbatim>\<open>InvalidArgument\<close>), call no callback, dispatch no task and leave the world, its log
  included, as it was: no login, no lookup, no deletion, no generation.
\<close>

theorem invalid_arguments_rejected:
  assumes "aNickname = [] \<or> aCallback = None"
  shows "GetOrCreateCert e aNickname aCallback w =
           \<lparr>returned = (if aNickname = [] then NS_ERROR_INVALID_ARG else NS_ERROR_INVALID_POINTER),
            called_back = [], dispatched = [], after = w\<rparr>
       \<and> RemoveCert e aNickname aCallback w =
           \<lparr>returned = (if aNickname = [] then NS_ERROR_INVALID_ARG else NS_ERROR_INVALID_POINTER),
            called_back = [], dispatched = [], after = w\<rparr>
       \<and> NS_FAILED (returned (GetOrCreateCert e aNickname aCallback w))
       \<and> NS_FAILED (returned (RemoveCert e aNickname aCallback w))"
  using assms by (auto simp: GetOrCreateCert_def RemoveCert_def NS_FAILED_def)

theorem invalid_arguments_rejected_witness:
  "GetOrCreateCert \<lparr>login = login_declined, Dispatch_rv = NS_OK\<rparr> [] (Some 0) empty_world =
     \<lparr>returned = NS_ERROR_INVALID_ARG, called_back = [], dispatched = [], after = empty_world\<rparr>
   \<and> RemoveCert \<lparr>login = login_declined, Dispatch_rv = NS_OK\<rparr> ''devtools'' None empty_world =
     \<lparr>returned = NS_ERROR_INVALID_POINTER, called_back = [], dispatched = [], after = empty_world\<rparr>"
  using invalid_arguments_rejected [of "[]" "Some 0" "\<lparr>login = login_declined, Dispatch_rv = NS_OK\<rparr>" empty_world]
    invalid_arguments_rejected [of "''devtools''" None "\<lparr>login = login_declined, Dispatch_rv = NS_OK\<rparr>" empty_world]
  by simp

text \<open>
  C7. With a nickname and a callback, when \<^verbatim>\<open>LoginToKeySlot\<close> fails with \<open>rv\<close>, both entry
  points call the callback before returning, with \<open>rv\<close> (and no certificate), and dispatch no
  task; the world is the one \<^verbatim>\<open>LoginToKeySlot\<close> left.
\<close>

theorem unlock_failure_short_circuits:
  assumes "aNickname \<noteq> []" and "LoginToKeySlot (login e) w = (rv, w1)" and "NS_FAILED rv"
  shows "called_back (GetOrCreateCert e aNickname (Some cb) w) = [HandleCert cb None rv]
       \<and> dispatched (GetOrCreateCert e aNickname (Some cb) w) = []
       \<and> after (GetOrCreateCert e aNickname (Some cb) w) = w1
       \<and> called_back (RemoveCert e aNickname (Some cb) w) = [HandleResult cb rv]
       \<and> dispatched (RemoveCert e aNickname (Some cb) w) = []
       \<and> after (RemoveCert e aNickname (Some cb) w) = w1"
  by (simp add: GetOrCreateCert_unlock_failed [OF assms] RemoveCert_unlock_failed [OF assms])

theorem unlock_failure_short_circuits_witness:
  "called_back (GetOrCreateCert \<lparr>login = login_declined, Dispatch_rv = NS_OK\<rparr> ''devtools'' (Some 0) empty_world)
     = [HandleCert 0 None NS_ERROR_FAILURE]
   \<and> dispatched (GetOrCreateCert \<lparr>login = login_declined, Dispatch_rv = NS_OK\<rparr> ''devtools'' (Some 0) empty_world) = []
   \<and> called_back (RemoveCert \<lparr>login = login_declined, Dispatch_rv = NS_OK\<rparr> ''devtools'' (Some 0) empty_world)
     = [HandleResult 0 NS_ERROR_FAILURE]
   \<and> dispatched (RemoveCert \<lparr>login = login_declined, Dispatch_rv = NS_OK\<rparr> ''devtools'' (Some 0) empty_world) = []"
  using unlock_failure_short_circuits [of "''devtools''" "\<lparr>login = login_declined, Dispatch_rv = NS_OK\<rparr>"
      empty_world NS_ERROR_FAILURE "\<lparr>certs = [], log = [KeySlotRequested, LoginPrompted]\<rparr>" 0]
    LoginToKeySlot_declined
  by (simp add: NS_FAILED_def)

text \<open>
  C10. In that case the status returned by the entry point itself is \<open>NS_OK\<close>: the failure
  of the login reaches the caller through the callback only.
\<close>

theorem unlock_failure_returns_NS_OK:
  assumes "aNickname \<noteq> []" and "LoginToKeySlot (login e) w = (rv, w1)" and "NS_FAILED rv"
  shows "returned (GetOrCreateCert e aNickname (Some cb) w) = NS_OK
       \<and> HandleCert cb None rv \<in> set (called_back (GetOrCreateCert e aNickname (Some cb) w))
       \<and> returned (RemoveCert e aNickname (Some cb) w) = NS_OK
       \<and> HandleResult cb rv \<in> set (called_back (RemoveCert e aNickname (Some cb) w))"
  by (simp add: GetOrCreateCert_unlock_failed [OF assms] RemoveCert_unlock_failed [OF assms])

theorem unlock_failure_returns_NS_OK_witness:
  "returned (GetOrCreateCert \<lparr>login = login_declined, Dispatch_rv = NS_ERROR_FAILURE\<rparr> ''devtools'' (Some 0) empty_world) = NS_OK
   \<and> returned (RemoveCert \<lparr>login = login_declined, Dispatch_rv = NS_ERROR_FAILURE\<rparr> ''devtools'' (Some 0) empty_world) = NS_OK"
  using unlock_failure_returns_NS_OK [of "''devtools''" "\<lparr>login = login_declined, Dispatch_rv = NS_ERROR_FAILURE\<rparr>"
      empty_world NS_ERROR_FAILURE "\<lparr>certs = [], log = [KeySlotRequested, LoginPrompted]\<rparr>" 0]
    LoginToKeySlot_declined
  by (simp add: NS_FAILED_def)

end
